theory Spec2Isabelle
  imports Main "HOL-Library.Sublist"
begin

section \<open>MEGA Manager: scheduling of the worker groups (megaManager.py, run)\<close>

text \<open>
  The command-line switches as \<open>run\<close> reads them. In the source they are attributes that
  hold \<open>None\<close>, \<open>False\<close> or \<open>True\<close>; \<open>run\<close> only tests their truth value, so each is a
  \<open>bool\<close> here (\<open>None\<close> is false).
\<close>

record flags =
  removeIncomplete :: bool
  download :: bool
  upload :: bool
  removeRemote :: bool
  compressAll :: bool
  compressImages :: bool
  compressVideos :: bool

text \<open>One constructor for each \<open>_create_thread...\<close> method that \<open>run\<close> may call.\<close>

datatype worker_group =
    CreateProfilesDataFile
  | LocalUnfinishedFileRemover
  | Download
  | Upload
  | RemovedRemoteFileDeletion
  | CompressImageFiles
  | CompressVideoFiles

text \<open>
  The \<open>if / elif / elif\<close> chain of \<open>run\<close> that starts the compression workers.
\<close>

definition schedule_compression :: "flags \<Rightarrow> worker_group list" where
  "schedule_compression f =
     (if compressAll f then [CompressImageFiles, CompressVideoFiles]
      else if compressImages f then [CompressImageFiles]
      else if compressVideos f then [CompressVideoFiles]
      else [])"

text \<open>
  The calls of \<open>run\<close> before it waits for the threads, in the order of the source.
\<close>

definition run_schedule :: "flags \<Rightarrow> worker_group list" where
  "run_schedule f =
     [CreateProfilesDataFile]
     @ (if removeIncomplete f then [LocalUnfinishedFileRemover] else [])
     @ (if download f then [Download] else [])
     @ (if upload f then [Upload] else [])
     @ (if removeRemote f then [RemovedRemoteFileDeletion] else [])
     @ schedule_compression f"

section \<open>The local file system and the numpy archive format\<close>

text \<open>
  The program runs on Windows (\<open>WindowsError\<close>, \<open>tasklist\<close>, back-slashed paths). A
  node of the local file system is a directory, a numpy \<open>.npz\<close> archive (the named string
  arrays it holds) or a file with any other content. \<open>locked\<close> marks the paths that can
  not be created, overwritten, removed or renamed at the moment (a handle another
  process still holds, a read-only location): \<open>os.remove\<close>, \<open>os.rename\<close> and
  \<open>savez_compressed\<close> raise on them.
\<close>

datatype node = Dir | NpzFile "(string \<times> string list) list" | OtherFile string

record world =
  files :: "string \<rightharpoonup> node"
  locked :: "string \<Rightarrow> bool"

datatype py_error = OSError | ValueError | AttributeError

definition path_exists :: "world \<Rightarrow> string \<Rightarrow> bool" where
  "path_exists w p = (files w p \<noteq> None)"

definition path_isfile :: "world \<Rightarrow> string \<Rightarrow> bool" where
  "path_isfile w p =
     (case files w p of None \<Rightarrow> False | Some Dir \<Rightarrow> False | Some _ \<Rightarrow> True)"

definition os_remove :: "string \<Rightarrow> world \<Rightarrow> py_error + world" where
  "os_remove p w =
     (if path_isfile w p \<and> \<not> locked w p then Inr (w\<lparr>files := (files w)(p := None)\<rparr>)
      else Inl OSError)"

text \<open>On Windows \<open>os.rename\<close> raises when the destination exists.\<close>

definition os_rename :: "string \<Rightarrow> string \<Rightarrow> world \<Rightarrow> py_error + world" where
  "os_rename src dst w =
     (case files w src of
        None \<Rightarrow> Inl OSError
      | Some n \<Rightarrow>
          if locked w src \<or> locked w dst \<or> path_exists w dst then Inl OSError
          else Inr (w\<lparr>files := (files w)(src := None, dst \<mapsto> n)\<rparr>))"

text \<open>
  \<open>numpy.array\<close> on a list of strings builds a fixed-width string array; reading an
  element back drops its trailing NUL characters. \<open>tolist\<close> of such an array is the list
  of its elements. (For the empty list numpy builds an empty float array, whose
  \<open>tolist\<close> is the empty list as well.)
\<close>

definition strip_trailing_nul :: "string \<Rightarrow> string" where
  "strip_trailing_nul s = rev (dropWhile (\<lambda>c. c = CHR 0x00) (rev s))"

definition np_array :: "string list \<Rightarrow> string list" where
  "np_array itemList = map strip_trailing_nul itemList"

definition tolist :: "string list \<Rightarrow> string list" where
  "tolist a = a"

text \<open>
  \<open>savez_compressed(file, name=array, ...)\<close> appends \<open>.npz\<close> to a file name that does not
  end in it, and replaces the file with an archive of the named arrays.
\<close>

definition npz_name :: "string \<Rightarrow> string" where
  "npz_name file = (if suffix ''.npz'' file then file else file @ ''.npz'')"

definition savez_compressed ::
  "string \<Rightarrow> (string \<times> string list) list \<Rightarrow> world \<Rightarrow> py_error + world" where
  "savez_compressed file arrays w =
     (let target = npz_name file in
      if locked w target \<or> files w target = Some Dir then Inl OSError
      else Inr (w\<lparr>files := (files w)(target \<mapsto> NpzFile arrays)\<rparr>))"

text \<open>
  \<open>numpy.load(file, allow_pickle=False)\<close> opens exactly the path it is given and
  raises when that is not an archive it can read; \<open>data.f.name\<close> raises when the archive
  has no array of that name.
\<close>

definition np_load :: "string \<Rightarrow> world \<Rightarrow> py_error + (string \<times> string list) list" where
  "np_load file w =
     (case files w file of
        Some (NpzFile arrays) \<Rightarrow> Inr arrays
      | Some (OtherFile _) \<Rightarrow> Inl ValueError
      | _ \<Rightarrow> Inl OSError)"

definition npz_attr :: "(string \<times> string list) list \<Rightarrow> string \<Rightarrow> py_error + string list" where
  "npz_attr data name =
     (case map_of data name of None \<Rightarrow> Inl AttributeError | Some a \<Rightarrow> Inr a)"

section \<open>The persistent list store (libs/lib.py)\<close>

text \<open>
  \<open>dump_list_into_file\<close>: the body is one \<open>try\<close> whose handler logs the exception, so a
  failed save leaves the file system as it was and the caller sees nothing.
\<close>

definition dump_list_into_file :: "string list \<Rightarrow> string \<Rightarrow> world \<Rightarrow> world" where
  "dump_list_into_file itemList filePath w =
     (let npList = np_array itemList in
      case savez_compressed filePath [(''list'', npList)] w of
        Inr w' \<Rightarrow> w'
      | Inl e \<Rightarrow> w)"

text \<open>
  \<open>load_file_as_list\<close>: \<open>items\<close> starts as the empty list; the \<open>try\<close> assigns it from
  the archive, the handler logs any exception, and \<open>finally: return items\<close> returns
  whatever \<open>items\<close> holds, which also discards an exception in flight. The result type
  keeps a place (\<open>Inl\<close>) for an exception that would reach the caller.
\<close>

definition load_file_as_list :: "string \<Rightarrow> world \<Rightarrow> py_error + string list" where
  "load_file_as_list filePath w =
     (let items = [] in
      if path_isfile w filePath then
        (case (case np_load filePath w of
                 Inl e \<Rightarrow> Inl e
               | Inr data \<Rightarrow>
                   (case npz_attr data ''list'' of
                      Inl e \<Rightarrow> Inl e
                    | Inr a \<Rightarrow> Inr (tolist a))) of
           Inr loaded \<Rightarrow> Inr loaded
         | Inl e \<Rightarrow> Inr items)
      else Inr items)"

section \<open>Strings as the program uses them\<close>

text \<open>Python's \<open>a in b\<close> on two strings: \<open>a\<close> occurs in \<open>b\<close> as a contiguous substring.\<close>

fun py_in :: "string \<Rightarrow> string \<Rightarrow> bool" where
  "py_in a [] = (a = [])"
| "py_in a (c # cs) = (prefix a (c # cs) \<or> py_in a cs)"

text \<open>\<open>sub('\\\\', '/', s)\<close>: every backslash of \<open>s\<close> becomes a slash.\<close>

definition backslashes_to_slashes :: "string \<Rightarrow> string" where
  "backslashes_to_slashes s = map (\<lambda>c. if c = CHR 0x5C then CHR ''/'' else c) s"

text \<open>\<open>s.rsplit(".", 1)[0]\<close>: \<open>s\<close> up to its last dot, all of \<open>s\<close> when it has none.\<close>

definition rsplit_dot_head :: "string \<Rightarrow> string" where
  "rsplit_dot_head s =
     (if CHR ''.'' \<in> set s then rev (tl (dropWhile (\<lambda>c. c \<noteq> CHR ''.'') (rev s))) else s)"

section \<open>MEGA Manager: collaborators, configuration and state\<close>

text \<open>
  The libraries \<open>MegaTools_Lib\<close>, \<open>CompressImages_Lib\<close> and \<open>FFMPEG_Lib\<close> and the regular
  expression engine are outside the two source files, so they are parameters. The remote
  listing and the remote delete depend on the account only; the transcoders act on the
  local file system. The remote delete reports success or failure by the boolean it
  returns (\<open>Inr\<close>), or raises (\<open>Inl\<close>). \<open>re_sub pattern repl s\<close> stands for
  \<open>re.sub(pattern, repl, s)\<close>.
\<close>

record tools =
  re_sub :: "string \<Rightarrow> string \<Rightarrow> string \<Rightarrow> string"
  get_remote_file_data_recursively :: "string \<Rightarrow> string \<Rightarrow> string \<Rightarrow> string list"
  get_remote_file_paths_recursively :: "string \<Rightarrow> string \<Rightarrow> string \<Rightarrow> string list"
  get_file_type_from_megals_line_data :: "string \<Rightarrow> string"
  get_file_extension_from_megals_line_data :: "string \<Rightarrow> string"
  get_file_path_from_megals_line_data :: "string \<Rightarrow> string"
  remove_remote_file :: "string \<Rightarrow> string \<Rightarrow> string \<Rightarrow> py_error + bool"
  compress_image_file :: "string \<Rightarrow> world \<Rightarrow> bool \<times> world"
  compress_video_file :: "string \<Rightarrow> string \<Rightarrow> world \<Rightarrow> bool \<times> world"

text \<open>The attributes and module constants that stay fixed during a run.\<close>

record config =
  compressionImageExtensions :: "string list"
  compressionVideoExtensions :: "string list"
  compressedImagesFilePath :: string
  unableToCompressImagesFilePath :: string
  COMPRESSED_VIDEOS_FILE :: string
  removedRemoteFilePath :: string
  localRoot :: string
  remoteRoot :: string

text \<open>
  Every call of a collaborator and every call of \<open>dump_list_into_file\<close> is appended to
  \<open>trace\<close>, in the order the program makes them.
\<close>

datatype call =
    CompressImage string
  | CompressVideo string string
  | RemoveRemoteFile string string string
  | DumpList "string list" string

text \<open>
  The mutable attributes of the \<open>MegaManager\<close> object, the local file system it works
  on, and the trace. \<open>compressedFiles\<close> is the public attribute that
  \<open>_find_image_files_to_compress\<close> assigns.
\<close>

record manager =
  compressedImageFiles :: "string list"
  unableToCompressImageFiles :: "string list"
  compressedVideoFiles :: "string list"
  unableToCompressVideoFiles :: "string list"
  removedRemoteFiles :: "string list"
  compressedFiles :: "string list"
  env :: world
  trace :: "call list"

text \<open>\<open>self.__lib.dump_list_into_file(itemList=..., filePath=...)\<close> as the manager calls it.\<close>

definition lib_dump_list_into_file :: "string list \<Rightarrow> string \<Rightarrow> manager \<Rightarrow> manager" where
  "lib_dump_list_into_file itemList filePath m =
     m\<lparr>env := dump_list_into_file itemList filePath (env m),
       trace := trace m @ [DumpList itemList filePath]\<rparr>"

text \<open>
  \<open>for retry in range(n): try: remove(p); break; except: log\<close>, and the same loop around
  \<open>rename\<close>.
\<close>

fun retry_remove :: "nat \<Rightarrow> string \<Rightarrow> world \<Rightarrow> world" where
  "retry_remove 0 p w = w"
| "retry_remove (Suc n) p w =
     (case os_remove p w of Inr w' \<Rightarrow> w' | Inl e \<Rightarrow> retry_remove n p w)"

fun retry_rename :: "nat \<Rightarrow> string \<Rightarrow> string \<Rightarrow> world \<Rightarrow> world" where
  "retry_rename 0 src dst w = w"
| "retry_rename (Suc n) src dst w =
     (case os_rename src dst w of Inr w' \<Rightarrow> w' | Inl e \<Rightarrow> retry_rename n src dst w)"

section \<open>Compression pipeline (megaManager.py)\<close>

text \<open>
  The body of the \<open>for line in lines\<close> loop of \<open>_find_image_files_to_compress\<close>.
  \<open>remove(compressPath_backup)\<close> sits in a \<open>try\<close> whose handler logs the
  \<open>WindowsError\<close>. On success with the backup present the source assigns
  \<open>self.compressedFiles = []\<close>, appends the path to it, and dumps
  \<open>self.__compressedImageFiles\<close>. (The source also computes a \<open>newFilePath\<close> at the
  head of the branch and never uses it; the log lines are left out as well.)
\<close>

definition image_line ::
  "tools \<Rightarrow> config \<Rightarrow> string \<Rightarrow> string \<Rightarrow> string \<Rightarrow> manager \<Rightarrow> manager" where
  "image_line t c localRoot_adj remoteRoot' line m =
     (let remote_type = get_file_type_from_megals_line_data t line;
          remote_fileExt = get_file_extension_from_megals_line_data t line;
          remote_filePath = get_file_path_from_megals_line_data t line;
          file_subPath = re_sub t remoteRoot' '''' remote_filePath;
          local_filePath = localRoot_adj @ file_subPath
      in
      if remote_type = ''0'' \<and> remote_fileExt \<in> set (compressionImageExtensions c)
         \<and> path_isfile (env m) local_filePath
         \<and> local_filePath \<notin> set (compressedImageFiles m)
         \<and> local_filePath \<notin> set (unableToCompressImageFiles m)
      then
        (let (result, w1) = compress_image_file t local_filePath (env m);
             m1 = m\<lparr>env := w1, trace := trace m @ [CompressImage local_filePath]\<rparr>
         in
         if result then
           (let compressPath_backup = local_filePath @ ''.compressimages-backup'' in
            if path_exists (env m1) compressPath_backup then
              (let w2 = (case os_remove compressPath_backup (env m1) of
                           Inr w' \<Rightarrow> w' | Inl e \<Rightarrow> env m1);
                   m2 = m1\<lparr>env := w2\<rparr>;
                   m3 = m2\<lparr>compressedFiles := []\<rparr>;
                   m4 = m3\<lparr>compressedFiles := compressedFiles m3 @ [local_filePath]\<rparr>
               in lib_dump_list_into_file (compressedImageFiles m4)
                    (compressedImagesFilePath c) m4)
            else
              (let m2 = m1\<lparr>unableToCompressImageFiles :=
                             unableToCompressImageFiles m1 @ [local_filePath]\<rparr>
               in lib_dump_list_into_file (unableToCompressImageFiles m2)
                    (unableToCompressImagesFilePath c) m2))
         else
           (let m2 = m1\<lparr>unableToCompressImageFiles :=
                          unableToCompressImageFiles m1 @ [local_filePath]\<rparr>
            in lib_dump_list_into_file (unableToCompressImageFiles m2)
                 (unableToCompressImagesFilePath c) m2))
      else m)"

fun image_lines ::
  "tools \<Rightarrow> config \<Rightarrow> string \<Rightarrow> string \<Rightarrow> string list \<Rightarrow> manager \<Rightarrow> manager" where
  "image_lines t c localRoot_adj remoteRoot' [] m = m"
| "image_lines t c localRoot_adj remoteRoot' (line # lines) m =
     image_lines t c localRoot_adj remoteRoot' lines
       (image_line t c localRoot_adj remoteRoot' line m)"

text \<open>
  \<open>_find_image_files_to_compress(username, password, localRoot, remoteRoot)\<close>. A
  listing that is \<open>None\<close> or empty fails the test \<open>if lines\<close>; both are the empty list
  here.
\<close>

definition find_image_files_to_compress ::
  "tools \<Rightarrow> config \<Rightarrow> string \<Rightarrow> string \<Rightarrow> string \<Rightarrow> string \<Rightarrow> manager \<Rightarrow> manager" where
  "find_image_files_to_compress t c username password localRoot' remoteRoot' m =
     (let localRoot_adj = backslashes_to_slashes localRoot';
          lines = get_remote_file_data_recursively t username password remoteRoot'
      in if lines \<noteq> [] then image_lines t c localRoot_adj remoteRoot' lines m else m)"

text \<open>
  The body of the loop of \<open>_find_video_files_to_compress\<close>. The \<open>remove\<close> of the branch
  \<open>elif path.exists(newFilePath)\<close> is not inside a \<open>try\<close>: when it raises, the
  exception leaves the method, so the result is \<open>Inl\<close> of the exception and the state at
  that moment. The last branch of the source only writes a log line.
\<close>

definition video_line ::
  "tools \<Rightarrow> config \<Rightarrow> string \<Rightarrow> string \<Rightarrow> string \<Rightarrow> manager
     \<Rightarrow> (py_error \<times> manager) + manager" where
  "video_line t c localRoot_adj remoteRoot' line m =
     (let remote_type = get_file_type_from_megals_line_data t line;
          remote_fileExt = get_file_extension_from_megals_line_data t line;
          remote_filePath = get_file_path_from_megals_line_data t line;
          file_subPath = re_sub t remoteRoot' '''' remote_filePath;
          local_filePath = localRoot_adj @ file_subPath
      in
      if remote_type = ''0'' \<and> remote_fileExt \<in> set (compressionVideoExtensions c)
         \<and> path_isfile (env m) local_filePath
         \<and> local_filePath \<notin> set (compressedVideoFiles m)
         \<and> local_filePath \<notin> set (unableToCompressVideoFiles m)
      then
        (let newFilePath = rsplit_dot_head local_filePath @ ''_NEW.mp4'';
             w0 = (if path_exists (env m) newFilePath
                   then retry_remove 100 newFilePath (env m) else env m);
             (result, w1) = compress_video_file t local_filePath newFilePath w0;
             m1 = m\<lparr>env := w1,
                    trace := trace m @ [CompressVideo local_filePath newFilePath]\<rparr>
         in
         if result \<and> path_exists (env m1) newFilePath then
           (let w2 = retry_remove 100 local_filePath (env m1);
                w3 = retry_rename 100 newFilePath (re_sub t ''_NEW'' '''' newFilePath) w2;
                m2 = m1\<lparr>env := w3,
                       compressedVideoFiles := compressedVideoFiles m1 @ [newFilePath]\<rparr>
            in Inr (lib_dump_list_into_file (compressedVideoFiles m2)
                      (COMPRESSED_VIDEOS_FILE c) m2))
         else if path_exists (env m1) newFilePath then
           (case os_remove newFilePath (env m1) of
              Inr w2 \<Rightarrow> Inr (m1\<lparr>env := w2\<rparr>)
            | Inl e \<Rightarrow> Inl (e, m1))
         else Inr m1)
      else Inr m)"

fun video_lines ::
  "tools \<Rightarrow> config \<Rightarrow> string \<Rightarrow> string \<Rightarrow> string list \<Rightarrow> manager
     \<Rightarrow> (py_error \<times> manager) + manager" where
  "video_lines t c localRoot_adj remoteRoot' [] m = Inr m"
| "video_lines t c localRoot_adj remoteRoot' (line # lines) m =
     (case video_line t c localRoot_adj remoteRoot' line m of
        Inl raised \<Rightarrow> Inl raised
      | Inr m' \<Rightarrow> video_lines t c localRoot_adj remoteRoot' lines m')"

definition find_video_files_to_compress ::
  "tools \<Rightarrow> config \<Rightarrow> string \<Rightarrow> string \<Rightarrow> string \<Rightarrow> string \<Rightarrow> manager
     \<Rightarrow> (py_error \<times> manager) + manager" where
  "find_video_files_to_compress t c username password localRoot' remoteRoot' m =
     (let localRoot_adj = backslashes_to_slashes localRoot';
          lines = get_remote_file_data_recursively t username password remoteRoot'
      in if lines \<noteq> [] then video_lines t c localRoot_adj remoteRoot' lines m else Inr m)"

text \<open>The manager as the method leaves it, whether it returned or raised.\<close>

definition state_after :: "(py_error \<times> manager) + manager \<Rightarrow> manager" where
  "state_after r = (case r of Inl (e, m) \<Rightarrow> m | Inr m \<Rightarrow> m)"

section \<open>Remote pruning pipeline (megaManager.py)\<close>

text \<open>
  \<open>_get_remote_files_that_dont_exist_locally\<close>: for each remote path the local path is
  computed, and the local path is what the method appends to its result when nothing
  exists there.
\<close>

fun dont_exist_locally :: "tools \<Rightarrow> config \<Rightarrow> string \<Rightarrow> world \<Rightarrow> string list \<Rightarrow> string list" where
  "dont_exist_locally t c localRoot_adj w [] = []"
| "dont_exist_locally t c localRoot_adj w (remote_filePath # remoteFiles) =
     (let file_subPath = re_sub t (remoteRoot c) '''' remote_filePath;
          local_filePath = localRoot_adj @ file_subPath
      in (if \<not> path_exists w local_filePath then [local_filePath] else [])
         @ dont_exist_locally t c localRoot_adj w remoteFiles)"

definition get_remote_files_that_dont_exist_locally ::
  "tools \<Rightarrow> config \<Rightarrow> string \<Rightarrow> string \<Rightarrow> manager \<Rightarrow> string list" where
  "get_remote_files_that_dont_exist_locally t c username password m =
     (let localRoot_adj = backslashes_to_slashes (localRoot c);
          remoteFiles = get_remote_file_paths_recursively t username password (remoteRoot c)
      in dont_exist_locally t c localRoot_adj (env m) remoteFiles)"

text \<open>
  The inner loop \<open>for removed_file in self.__removedRemoteFiles\<close>, which sets
  \<open>higherDirRemoved\<close> and breaks at the first recorded entry that occurs in \<open>filePath\<close>.
\<close>

fun higherDirRemoved :: "string list \<Rightarrow> string \<Rightarrow> bool" where
  "higherDirRemoved [] filePath = False"
| "higherDirRemoved (removed_file # rest) filePath =
     (if py_in removed_file filePath then True else higherDirRemoved rest filePath)"

text \<open>
  The body of \<open>for filePath in dontExistLocally\<close>: the append comes first, then the
  remote delete, then the dump. The source does not read what the delete returns, and
  the call is not inside a \<open>try\<close>: when it raises, the exception leaves the method with
  the path appended and nothing dumped.
\<close>

definition delete_step ::
  "tools \<Rightarrow> config \<Rightarrow> string \<Rightarrow> string \<Rightarrow> string \<Rightarrow> manager
     \<Rightarrow> (py_error \<times> manager) + manager" where
  "delete_step t c username password filePath m =
     (if filePath \<notin> set (removedRemoteFiles m) then
        (if \<not> higherDirRemoved (removedRemoteFiles m) filePath then
           (let m1 = m\<lparr>removedRemoteFiles := removedRemoteFiles m @ [filePath]\<rparr>;
                m2 = m1\<lparr>trace := trace m1 @ [RemoveRemoteFile username password filePath]\<rparr>
            in case remove_remote_file t username password filePath of
                 Inl e \<Rightarrow> Inl (e, m2)
               | Inr deleted \<Rightarrow>
                   Inr (lib_dump_list_into_file (removedRemoteFiles m2)
                          (removedRemoteFilePath c) m2))
         else Inr m)
      else Inr m)"

fun delete_loop ::
  "tools \<Rightarrow> config \<Rightarrow> string \<Rightarrow> string \<Rightarrow> string list \<Rightarrow> manager
     \<Rightarrow> (py_error \<times> manager) + manager" where
  "delete_loop t c username password [] m = Inr m"
| "delete_loop t c username password (filePath # dontExistLocally) m =
     (case delete_step t c username password filePath m of
        Inl raised \<Rightarrow> Inl raised
      | Inr m' \<Rightarrow> delete_loop t c username password dontExistLocally m')"

definition delete_remote_files_that_dont_exist_locally ::
  "tools \<Rightarrow> config \<Rightarrow> string \<Rightarrow> string \<Rightarrow> manager \<Rightarrow> (py_error \<times> manager) + manager" where
  "delete_remote_files_that_dont_exist_locally t c username password m =
     (let dontExistLocally = get_remote_files_that_dont_exist_locally t c username password m
      in delete_loop t c username password dontExistLocally m)"

text \<open>
  The pruning of a later run: the set is read from its store, which is the first
  statement of \<open>_create_threads_removed_remote_file_deletion\<close>, and the pruning method
  runs with the set that was read.
\<close>

definition prune_after_reload ::
  "tools \<Rightarrow> config \<Rightarrow> string \<Rightarrow> string \<Rightarrow> manager \<Rightarrow> (py_error \<times> manager) + manager" where
  "prune_after_reload t c username password m =
     (case load_file_as_list (removedRemoteFilePath c) (env m) of
        Inl e \<Rightarrow> Inl (e, m)
      | Inr items \<Rightarrow>
          delete_remote_files_that_dont_exist_locally t c username password
            (m\<lparr>removedRemoteFiles := items\<rparr>))"

section \<open>Waiting for the workers (megaManager.py)\<close>

text \<open>
  A worker thread is an object with a name; \<open>tid\<close> stands for its identity, which is what
  \<open>list.remove\<close> compares.
\<close>

record thread =
  tid :: nat
  name :: string

text \<open>
  \<open>for thread in self.__threads\<close> with the body of the source. Python's list iterator
  keeps an index: it stops when the index reaches the current length of the list, and
  otherwise yields the element at the index and moves one further. The body removes the
  thread it was given from that same list when the thread is no longer alive.
\<close>

function scan_threads ::
  "(thread \<Rightarrow> bool) \<Rightarrow> nat \<Rightarrow> thread list \<Rightarrow> bool \<Rightarrow> thread list \<times> bool" where
  "scan_threads isAlive i ts megaFileThreads_found =
     (if i < length ts then
        (let thread = ts ! i in
         if \<not> isAlive thread
         then scan_threads isAlive (Suc i) (remove1 thread ts) megaFileThreads_found
         else if py_in ''megaFile'' (name thread)
         then scan_threads isAlive (Suc i) ts True
         else scan_threads isAlive (Suc i) ts megaFileThreads_found)
      else (ts, megaFileThreads_found))"
  by pat_completeness auto

termination
  by (relation "measure (\<lambda>(isAlive, i, ts, found). length ts - i)")
    (auto simp: length_remove1)

declare scan_threads.simps [simp del]

record waiter =
  threads :: "thread list"
  megaFileFinished :: bool
  exports :: nat

datatype wait_result = AllFinished | TimedOut | StillWaiting

text \<open>
  The \<open>while len(self.__threads) > 0\<close> loop. Each pass reads the clock once and asks the
  threads it visits whether they are alive; the list of polls gives, pass by pass, the
  elapsed time \<open>time() - startTime\<close> and the answers of \<open>isAlive\<close>. \<open>exports\<close> counts the
  calls of \<open>_export_accounts_details_dict\<close>. When the polls are used up and threads
  remain, the loop is still running (\<open>StillWaiting\<close>).
\<close>

fun wait_loop ::
  "'t::linorder \<Rightarrow> ('t \<times> (thread \<Rightarrow> bool)) list \<Rightarrow> waiter \<Rightarrow> wait_result \<times> waiter" where
  "wait_loop timeout [] s =
     (if length (threads s) > 0 then (StillWaiting, s) else (AllFinished, s))"
| "wait_loop timeout ((elapsed, isAlive) # polls) s =
     (if length (threads s) > 0 then
        (if \<not> elapsed > timeout then
           (let (ts, megaFileThreads_found) = scan_threads isAlive 0 (threads s) False;
                s1 = s\<lparr>threads := ts\<rparr>;
                s2 = (if \<not> megaFileThreads_found \<and> \<not> megaFileFinished s1
                      then s1\<lparr>exports := exports s1 + 1, megaFileFinished := True\<rparr>
                      else s1)
            in wait_loop timeout polls s2)
         else (TimedOut, s))
      else (AllFinished, s))"

definition wait_for_threads_to_finish ::
  "'t::linorder \<Rightarrow> ('t \<times> (thread \<Rightarrow> bool)) list \<Rightarrow> thread list \<Rightarrow> wait_result \<times> waiter" where
  "wait_for_threads_to_finish timeout polls ts =
     wait_loop timeout polls \<lparr>threads = ts, megaFileFinished = False, exports = 0\<rparr>"

section \<open>A concrete installation for the examples\<close>

text \<open>
  \<open>re.sub(pattern, repl, s)\<close> for a non-empty pattern without regular-expression
  metacharacters: every occurrence of the pattern, found from left to right without
  overlap, is replaced. The first argument holds the characters of a match that are
  still to be skipped.
\<close>

fun sub_literal_from :: "string \<Rightarrow> string \<Rightarrow> string \<Rightarrow> string \<Rightarrow> string" where
  "sub_literal_from skip pattern repl [] = []"
| "sub_literal_from (x # skip) pattern repl (ch # s) = sub_literal_from skip pattern repl s"
| "sub_literal_from [] pattern repl (ch # s) =
     (if pattern \<noteq> [] \<and> prefix pattern (ch # s)
      then repl @ sub_literal_from (tl pattern) pattern repl s
      else ch # sub_literal_from [] pattern repl s)"

definition sub_literal :: "string \<Rightarrow> string \<Rightarrow> string \<Rightarrow> string" where
  "sub_literal pattern repl s = sub_literal_from [] pattern repl s"

text \<open>
  A listing line of the examples is the remote path of a plain file (type \<open>0\<close>); its
  extension is what follows its last dot, with the dot.
\<close>

definition example_extension :: "string \<Rightarrow> string" where
  "example_extension line =
     (if CHR ''.'' \<in> set line
      then CHR ''.'' # rev (takeWhile (\<lambda>c. c \<noteq> CHR ''.'') (rev line)) else [])"

definition example_tools ::
  "string list \<Rightarrow> (string \<Rightarrow> world \<Rightarrow> bool \<times> world)
     \<Rightarrow> (string \<Rightarrow> string \<Rightarrow> world \<Rightarrow> bool \<times> world) \<Rightarrow> bool \<Rightarrow> tools" where
  "example_tools listing image_transcoder video_transcoder delete_result =
     \<lparr>re_sub = sub_literal,
      get_remote_file_data_recursively = (\<lambda>username password remotePath. listing),
      get_remote_file_paths_recursively = (\<lambda>username password remotePath. listing),
      get_file_type_from_megals_line_data = (\<lambda>line. ''0''),
      get_file_extension_from_megals_line_data = example_extension,
      get_file_path_from_megals_line_data = (\<lambda>line. line),
      remove_remote_file = (\<lambda>username password remoteFilePath. Inr delete_result),
      compress_image_file = image_transcoder,
      compress_video_file = video_transcoder\<rparr>"

text \<open>
  An image transcoder that succeeds and leaves its backup beside the file, and
  transcoders that fail without writing anything.
\<close>

definition image_transcoder_ok :: "string \<Rightarrow> world \<Rightarrow> bool \<times> world" where
  "image_transcoder_ok filePath w =
     (True, w\<lparr>files := (files w)(filePath @ ''.compressimages-backup'' \<mapsto>
                           OtherFile ''original'')\<rparr>)"

definition image_transcoder_fails :: "string \<Rightarrow> world \<Rightarrow> bool \<times> world" where
  "image_transcoder_fails filePath w = (False, w)"

definition video_transcoder_fails :: "string \<Rightarrow> string \<Rightarrow> world \<Rightarrow> bool \<times> world" where
  "video_transcoder_fails filePath targetPath w = (False, w)"

text \<open>The extension lists are the module constants of the source.\<close>

definition example_config :: config where
  "example_config =
     \<lparr>compressionImageExtensions = [''.jpg'', ''.jpeg'', ''.png''],
      compressionVideoExtensions = [''.avi'', ''.mp4'', ''.wmv''],
      compressedImagesFilePath = ''data/compressed_images.npz'',
      unableToCompressImagesFilePath = ''data/unable_to_compress_images.npz'',
      COMPRESSED_VIDEOS_FILE = ''data/compressed_videos.npz'',
      removedRemoteFilePath = ''data/removed_remote_files.npz'',
      localRoot = ''C:/data'',
      remoteRoot = ''/Root''\<rparr>"

definition example_world :: "string list \<Rightarrow> world" where
  "example_world paths =
     \<lparr>files = map_of (map (\<lambda>p. (p, OtherFile ''media'')) paths), locked = (\<lambda>p. False)\<rparr>"

definition example_manager :: "string list \<Rightarrow> manager" where
  "example_manager paths =
     \<lparr>compressedImageFiles = [], unableToCompressImageFiles = [],
      compressedVideoFiles = [], unableToCompressVideoFiles = [],
      removedRemoteFiles = [], compressedFiles = [],
      env = example_world paths, trace = []\<rparr>"

definition video_transcoder_leaves_target :: "string \<Rightarrow> string \<Rightarrow> world \<Rightarrow> bool \<times> world" where
  "video_transcoder_leaves_target filePath targetPath w =
     (False, w\<lparr>files := (files w)(targetPath \<mapsto> OtherFile ''partial'')\<rparr>)"

text \<open>
  The image scenario of the specification: \<open>pic.jpg\<close> exists locally, the listing shows
  it as a plain file with extension \<open>.jpg\<close>, no set holds it, the transcoder succeeds and
  leaves its backup.
\<close>

definition pic_scenario :: manager where
  "pic_scenario =
     find_image_files_to_compress
       (example_tools [''/Root/pic.jpg''] image_transcoder_ok video_transcoder_fails False)
       example_config ''user'' ''secret'' ''C:/data'' ''/Root''
       (example_manager [''C:/data/pic.jpg''])"

text \<open>
  Two video runs on \<open>clip.avi\<close>: the transcoder fails and writes nothing, and the
  transcoder fails but leaves the target file.
\<close>

definition clip_scenario :: "(py_error \<times> manager) + manager" where
  "clip_scenario =
     find_video_files_to_compress
       (example_tools [''/Root/clip.avi''] image_transcoder_fails video_transcoder_fails False)
       example_config ''user'' ''secret'' ''C:/data'' ''/Root''
       (example_manager [''C:/data/clip.avi''])"

definition clip_target_scenario :: "(py_error \<times> manager) + manager" where
  "clip_target_scenario =
     find_video_files_to_compress
       (example_tools [''/Root/clip.avi''] image_transcoder_fails
          video_transcoder_leaves_target False)
       example_config ''user'' ''secret'' ''C:/data'' ''/Root''
       (example_manager [''C:/data/clip.avi''])"

text \<open>
  A pruning run: the account lists \<open>/Root/a.txt\<close>, the local root \<open>C:/data\<close> holds
  nothing, and nothing has been removed before.
\<close>

definition prune_scenario :: "(py_error \<times> manager) + manager" where
  "prune_scenario =
     delete_remote_files_that_dont_exist_locally
       (example_tools [''/Root/a.txt''] image_transcoder_fails video_transcoder_fails True)
       example_config ''user'' ''secret'' (example_manager [])"

text \<open>
  The same account when the remote delete reports a failure, on a machine where the
  store can be written and on one where nothing can be written (the data directory is
  missing, say); each followed by the pruning of a later run. And the same account when
  the remote delete raises.
\<close>

definition read_only_world :: world where
  "read_only_world = \<lparr>files = Map.empty, locked = (\<lambda>p. True)\<rparr>"

definition failed_delete_prune :: "(py_error \<times> manager) + manager" where
  "failed_delete_prune =
     delete_remote_files_that_dont_exist_locally
       (example_tools [''/Root/a.txt''] image_transcoder_fails video_transcoder_fails False)
       example_config ''user'' ''secret'' (example_manager [])"

definition failed_delete_prune_again :: "(py_error \<times> manager) + manager" where
  "failed_delete_prune_again =
     prune_after_reload
       (example_tools [''/Root/a.txt''] image_transcoder_fails video_transcoder_fails False)
       example_config ''user'' ''secret'' (state_after failed_delete_prune)"

definition unwritable_prune :: "(py_error \<times> manager) + manager" where
  "unwritable_prune =
     delete_remote_files_that_dont_exist_locally
       (example_tools [''/Root/a.txt''] image_transcoder_fails video_transcoder_fails False)
       example_config ''user'' ''secret'' ((example_manager [])\<lparr>env := read_only_world\<rparr>)"

definition unwritable_prune_again :: "(py_error \<times> manager) + manager" where
  "unwritable_prune_again =
     prune_after_reload
       (example_tools [''/Root/a.txt''] image_transcoder_fails video_transcoder_fails False)
       example_config ''user'' ''secret'' (state_after unwritable_prune)"

definition raising_delete_prune :: "(py_error \<times> manager) + manager" where
  "raising_delete_prune =
     delete_remote_files_that_dont_exist_locally
       ((example_tools [''/Root/a.txt''] image_transcoder_fails video_transcoder_fails False)
          \<lparr>remove_remote_file := (\<lambda>username password remoteFilePath. Inl OSError)\<rparr>)
       example_config ''user'' ''secret'' (example_manager [])"

text \<open>
  Answers of \<open>isAlive\<close> for the examples: the threads whose identity is in the list are
  alive, all others have finished.
\<close>

definition alive_ids :: "nat list \<Rightarrow> thread \<Rightarrow> bool" where
  "alive_ids ids thread = (tid thread \<in> set ids)"

text \<open>
  Three waits with the default timeout of 99999 seconds. In the first the only worker,
  a detail-gatherer, is alive at the first pass and has finished at the second. In the
  second it is still alive when the clock has passed the timeout. In the third the
  registry holds the finished thread that started the detail-gatherers, followed by one
  detail-gatherer that is alive.
\<close>

definition finished_wait :: "wait_result \<times> waiter" where
  "finished_wait =
     wait_for_threads_to_finish (99999 :: int)
       [(0, alive_ids [1]), (5, alive_ids [])]
       [\<lparr>tid = 1, name = ''thread_megaFile_home''\<rparr>]"

definition timed_out_wait :: "wait_result \<times> waiter" where
  "timed_out_wait =
     wait_for_threads_to_finish (99999 :: int)
       [(0, alive_ids [1]), (100000, alive_ids [1])]
       [\<lparr>tid = 1, name = ''thread_megaFile_home''\<rparr>]"

definition early_export_wait :: "wait_result \<times> waiter" where
  "early_export_wait =
     wait_for_threads_to_finish (99999 :: int)
       [(0, alive_ids [1])]
       [\<lparr>tid = 0, name = ''thread_create_profiles_data_file''\<rparr>,
        \<lparr>tid = 1, name = ''thread_megaFile_home''\<rparr>]"

section \<open>Properties\<close>

text \<open>
  C9. Precedence of the compression switches: with compress-images and compress-videos
  both set and compress-all not set, \<open>run\<close> starts the image-compression worker and not
  the video-compression worker; the video-compression worker is started exactly when
  compress-all is set, or compress-videos is set while compress-images is not.
\<close>

theorem C9_compression_flag_precedence:
  "(compressImages f \<and> compressVideos f \<and> \<not> compressAll f \<longrightarrow>
      CompressImageFiles \<in> set (run_schedule f) \<and> CompressVideoFiles \<notin> set (run_schedule f))
   \<and> (CompressVideoFiles \<in> set (run_schedule f) \<longleftrightarrow>
        compressAll f \<or> (compressVideos f \<and> \<not> compressImages f))"
  by (simp add: run_schedule_def schedule_compression_def)

theorem C9_compression_flag_precedence_witness:
  "compressImages \<lparr>removeIncomplete = False, download = False, upload = False,
       removeRemote = False, compressAll = False, compressImages = True,
       compressVideos = True\<rparr>
   \<and> run_schedule \<lparr>removeIncomplete = False, download = False, upload = False,
       removeRemote = False, compressAll = False, compressImages = True,
       compressVideos = True\<rparr> = [CreateProfilesDataFile, CompressImageFiles]
   \<and> CompressVideoFiles \<notin> set (run_schedule \<lparr>removeIncomplete = False, download = False,
       upload = False, removeRemote = False, compressAll = False, compressImages = True,
       compressVideos = True\<rparr>)"
  using C9_compression_flag_precedence [of "\<lparr>removeIncomplete = False, download = False,
       upload = False, removeRemote = False, compressAll = False, compressImages = True,
       compressVideos = True\<rparr>"]
  by (simp add: run_schedule_def schedule_compression_def)

subsection \<open>Persistent list store\<close>

lemma strip_trailing_nul_id: "CHR 0x00 \<notin> set s \<Longrightarrow> strip_trailing_nul s = s"
proof -
  assume a: "CHR 0x00 \<notin> set s"
  have "dropWhile (\<lambda>c. c = CHR 0x00) (rev s) = rev s"
  proof (cases "rev s")
    case Nil
    then show ?thesis by simp
  next
    case (Cons c cs)
    then have "c \<in> set s" by (metis list.set_intros(1) set_rev)
    with a have "c \<noteq> CHR 0x00" by auto
    with Cons show ?thesis by simp
  qed
  then show ?thesis by (simp add: strip_trailing_nul_def)
qed

lemma np_array_id: "\<forall>p\<in>set x. CHR 0x00 \<notin> set p \<Longrightarrow> np_array x = x"
  by (simp add: np_array_def strip_trailing_nul_id map_idI)

text \<open>
  C6. Round trip of the persistent list store: when the save can write its file, saving a
  list of path strings (strings without NUL characters) and loading the file that was
  written returns that list, element for element and in the same order; in particular
  the loaded paths are the same set. This holds for every list of such strings, so also
  for the non-empty duplicate-free ones.
\<close>

theorem C6_store_round_trip:
  assumes "\<forall>p\<in>set x. CHR 0x00 \<notin> set p"
    and "\<not> locked w (npz_name filePath)"
    and "files w (npz_name filePath) \<noteq> Some Dir"
  shows "\<exists>loaded. load_file_as_list (npz_name filePath) (dump_list_into_file x filePath w)
            = Inr loaded \<and> set loaded = set x \<and> loaded = x"
  using assms
  by (simp add: load_file_as_list_def dump_list_into_file_def savez_compressed_def
      np_load_def npz_attr_def tolist_def path_isfile_def np_array_id)

theorem C6_store_round_trip_witness:
  "[''C:/m/a.jpg'', ''C:/m/b.png''] \<noteq> []
   \<and> distinct [''C:/m/a.jpg'', ''C:/m/b.png'']
   \<and> CHR 0x00 \<notin> set ''C:/m/a.jpg'' \<and> CHR 0x00 \<notin> set ''C:/m/b.png''
   \<and> \<not> locked \<lparr>files = Map.empty, locked = (\<lambda>p. False)\<rparr> (npz_name ''store.npz'')
   \<and> npz_name ''store.npz'' = ''store.npz''
   \<and> load_file_as_list ''store.npz''
        (dump_list_into_file [''C:/m/a.jpg'', ''C:/m/b.png''] ''store.npz''
           \<lparr>files = Map.empty, locked = (\<lambda>p. False)\<rparr>)
      = Inr [''C:/m/a.jpg'', ''C:/m/b.png'']"
  using C6_store_round_trip [of "[''C:/m/a.jpg'', ''C:/m/b.png'']"
      "\<lparr>files = Map.empty, locked = (\<lambda>p. False)\<rparr>" "''store.npz''"]
  by (simp add: npz_name_def suffix_to_prefix)

text \<open>
  C7. Loading fails soft: for every path and every state of the file system the load
  returns a list of strings to its caller and raises nothing; the list is empty when the
  path is not a regular file, when numpy cannot read the file, and when the archive has
  no array named \<open>list\<close>.
\<close>

theorem C7_load_fails_soft:
  "(\<exists>items. load_file_as_list filePath w = Inr items)
   \<and> (\<not> path_isfile w filePath \<longrightarrow> load_file_as_list filePath w = Inr [])
   \<and> ((\<exists>e. np_load filePath w = Inl e) \<longrightarrow> load_file_as_list filePath w = Inr [])
   \<and> ((\<exists>data e. np_load filePath w = Inr data \<and> npz_attr data ''list'' = Inl e)
        \<longrightarrow> load_file_as_list filePath w = Inr [])"
  by (auto simp: load_file_as_list_def split: sum.splits)

theorem C7_load_fails_soft_witness:
  "\<not> path_isfile \<lparr>files = [''bad.npz'' \<mapsto> OtherFile ''garbage''], locked = (\<lambda>p. False)\<rparr>
        ''missing.npz''
   \<and> load_file_as_list ''missing.npz''
        \<lparr>files = [''bad.npz'' \<mapsto> OtherFile ''garbage''], locked = (\<lambda>p. False)\<rparr> = Inr []
   \<and> np_load ''bad.npz''
        \<lparr>files = [''bad.npz'' \<mapsto> OtherFile ''garbage''], locked = (\<lambda>p. False)\<rparr>
      = Inl ValueError
   \<and> load_file_as_list ''bad.npz''
        \<lparr>files = [''bad.npz'' \<mapsto> OtherFile ''garbage''], locked = (\<lambda>p. False)\<rparr> = Inr []"
  using C7_load_fails_soft [of "''missing.npz''"
      "\<lparr>files = [''bad.npz'' \<mapsto> OtherFile ''garbage''], locked = (\<lambda>p. False)\<rparr>"]
    C7_load_fails_soft [of "''bad.npz''"
      "\<lparr>files = [''bad.npz'' \<mapsto> OtherFile ''garbage''], locked = (\<lambda>p. False)\<rparr>"]
  by (simp add: path_isfile_def np_load_def)

subsection \<open>Compression pipeline\<close>

lemma lib_dump_fields [simp]:
  "compressedImageFiles (lib_dump_list_into_file xs f m) = compressedImageFiles m"
  "unableToCompressImageFiles (lib_dump_list_into_file xs f m) = unableToCompressImageFiles m"
  "compressedVideoFiles (lib_dump_list_into_file xs f m) = compressedVideoFiles m"
  "unableToCompressVideoFiles (lib_dump_list_into_file xs f m) = unableToCompressVideoFiles m"
  "removedRemoteFiles (lib_dump_list_into_file xs f m) = removedRemoteFiles m"
  "compressedFiles (lib_dump_list_into_file xs f m) = compressedFiles m"
  "trace (lib_dump_list_into_file xs f m) = trace m @ [DumpList xs f]"
  "env (lib_dump_list_into_file xs f m) = dump_list_into_file xs f (env m)"
  by (simp_all add: lib_dump_list_into_file_def)

lemma image_line_compressed:
  "compressedImageFiles (image_line t c lr rr line m) = compressedImageFiles m"
  by (simp add: image_line_def Let_def split: prod.splits)

lemma image_line_unable_mono:
  "set (unableToCompressImageFiles m) \<subseteq> set (unableToCompressImageFiles (image_line t c lr rr line m))"
  by (simp add: image_line_def Let_def subset_insertI split: prod.splits)

lemma image_line_skip:
  assumes "lr @ re_sub t rr [] (get_file_path_from_megals_line_data t line) = p"
    and "p \<in> set (compressedImageFiles m) \<union> set (unableToCompressImageFiles m)"
  shows "image_line t c lr rr line m = m"
proof (cases "p \<in> set (compressedImageFiles m)")
  case True
  with assms(1) show ?thesis by (simp add: image_line_def Let_def)
next
  case False
  with assms(2) have "p \<in> set (unableToCompressImageFiles m)" by simp
  with assms(1) show ?thesis by (simp add: image_line_def Let_def)
qed

lemma image_line_no_call:
  assumes "p \<in> set (compressedImageFiles m) \<union> set (unableToCompressImageFiles m)"
  shows "count_list (trace (image_line t c lr rr line m)) (CompressImage p)
         = count_list (trace m) (CompressImage p)"
proof (cases "lr @ re_sub t rr [] (get_file_path_from_megals_line_data t line) = p")
  case True
  then have "image_line t c lr rr line m = m"
    using assms by (rule image_line_skip)
  then show ?thesis by simp
next
  case False
  then show ?thesis
    by (simp add: image_line_def Let_def split: prod.splits)
qed

lemma image_lines_compressed:
  "compressedImageFiles (image_lines t c lr rr lines m) = compressedImageFiles m"
  by (induction lines arbitrary: m) (simp_all add: image_line_compressed)

lemma image_lines_unable_mono:
  "set (unableToCompressImageFiles m)
   \<subseteq> set (unableToCompressImageFiles (image_lines t c lr rr lines m))"
proof (induction lines arbitrary: m)
  case Nil
  then show ?case by simp
next
  case (Cons line lines)
  have "set (unableToCompressImageFiles m)
        \<subseteq> set (unableToCompressImageFiles (image_line t c lr rr line m))"
    by (rule image_line_unable_mono)
  also have "\<dots> \<subseteq> set (unableToCompressImageFiles
                     (image_lines t c lr rr lines (image_line t c lr rr line m)))"
    by (rule Cons.IH)
  finally show ?case by simp
qed

lemma image_lines_no_call:
  assumes "p \<in> set (compressedImageFiles m) \<union> set (unableToCompressImageFiles m)"
  shows "count_list (trace (image_lines t c lr rr lines m)) (CompressImage p)
         = count_list (trace m) (CompressImage p)"
  using assms
proof (induction lines arbitrary: m)
  case Nil
  then show ?case by simp
next
  case (Cons line lines)
  let ?m' = "image_line t c lr rr line m"
  have "set (unableToCompressImageFiles m) \<subseteq> set (unableToCompressImageFiles ?m')"
    by (rule image_line_unable_mono)
  with Cons.prems
  have "p \<in> set (compressedImageFiles ?m') \<union> set (unableToCompressImageFiles ?m')"
    by (auto simp: image_line_compressed)
  then have "count_list (trace (image_lines t c lr rr lines ?m')) (CompressImage p)
             = count_list (trace ?m') (CompressImage p)"
    by (rule Cons.IH)
  also have "\<dots> = count_list (trace m) (CompressImage p)"
    using Cons.prems by (rule image_line_no_call)
  finally show ?case by simp
qed

lemma video_line_unable:
  "unableToCompressVideoFiles (state_after (video_line t c lr rr line m))
   = unableToCompressVideoFiles m"
  by (simp add: video_line_def state_after_def Let_def split: prod.splits sum.splits)

lemma video_line_compressed_mono:
  "set (compressedVideoFiles m)
   \<subseteq> set (compressedVideoFiles (state_after (video_line t c lr rr line m)))"
  by (simp add: video_line_def state_after_def Let_def subset_insertI
      split: prod.splits sum.splits)

lemma video_line_skip:
  assumes "lr @ re_sub t rr [] (get_file_path_from_megals_line_data t line) = p"
    and "p \<in> set (compressedVideoFiles m) \<union> set (unableToCompressVideoFiles m)"
  shows "video_line t c lr rr line m = Inr m"
proof (cases "p \<in> set (compressedVideoFiles m)")
  case True
  with assms(1) show ?thesis by (simp add: video_line_def Let_def)
next
  case False
  with assms(2) have "p \<in> set (unableToCompressVideoFiles m)" by simp
  with assms(1) show ?thesis by (simp add: video_line_def Let_def)
qed

lemma video_line_no_call:
  assumes "p \<in> set (compressedVideoFiles m) \<union> set (unableToCompressVideoFiles m)"
  shows "count_list (trace (state_after (video_line t c lr rr line m))) (CompressVideo p tgt)
         = count_list (trace m) (CompressVideo p tgt)"
proof (cases "lr @ re_sub t rr [] (get_file_path_from_megals_line_data t line) = p")
  case True
  then have "video_line t c lr rr line m = Inr m"
    using assms by (rule video_line_skip)
  then show ?thesis by (simp add: state_after_def)
next
  case False
  then show ?thesis
    by (simp add: video_line_def state_after_def Let_def split: prod.splits sum.splits)
qed

lemma video_lines_Cons_state:
  "state_after (video_lines t c lr rr (line # lines) m)
   = (case video_line t c lr rr line m of
        Inl raised \<Rightarrow> state_after (video_line t c lr rr line m)
      | Inr m' \<Rightarrow> state_after (video_lines t c lr rr lines m'))"
  by (simp add: state_after_def split: sum.splits)

lemma video_lines_no_call:
  assumes "p \<in> set (compressedVideoFiles m) \<union> set (unableToCompressVideoFiles m)"
  shows "count_list (trace (state_after (video_lines t c lr rr lines m))) (CompressVideo p tgt)
         = count_list (trace m) (CompressVideo p tgt)"
  using assms
proof (induction lines arbitrary: m)
  case Nil
  then show ?case by (simp add: state_after_def)
next
  case (Cons line lines)
  let ?r = "video_line t c lr rr line m"
  have step: "count_list (trace (state_after ?r)) (CompressVideo p tgt)
              = count_list (trace m) (CompressVideo p tgt)"
    using Cons.prems by (rule video_line_no_call)
  have mono: "p \<in> set (compressedVideoFiles (state_after ?r))
                \<union> set (unableToCompressVideoFiles (state_after ?r))"
    using Cons.prems video_line_compressed_mono [of m t c lr rr line]
    by (auto simp: video_line_unable)
  show ?case
  proof (cases ?r)
    case (Inl raised)
    then show ?thesis using step by (simp add: video_lines_Cons_state)
  next
    case (Inr m')
    then have m': "state_after ?r = m'" by (simp add: state_after_def)
    have "count_list (trace (state_after (video_lines t c lr rr lines m'))) (CompressVideo p tgt)
          = count_list (trace m') (CompressVideo p tgt)"
      using mono unfolding m' by (rule Cons.IH)
    then show ?thesis using step Inr m' by (simp add: video_lines_Cons_state)
  qed
qed

text \<open>
  C1. Idempotence guard of the compression pipeline: a local path that is already in the
  compressed set or in the unable-to-compress set of its kind when the pipeline starts is
  never handed to the transcoder. The number of transcoder calls on that path in the
  trace is the same after the pipeline as before it, for images and for videos (for
  videos whatever the target path, and also when the method ends by an exception). A
  second run starts from the sets the first run left, so it makes no call for a path
  that is in them.
\<close>

theorem C1_compression_idempotence:
  "(p \<in> set (compressedImageFiles m) \<union> set (unableToCompressImageFiles m) \<longrightarrow>
      count_list (trace (find_image_files_to_compress t c username password lr rr m))
        (CompressImage p)
      = count_list (trace m) (CompressImage p))
   \<and> (p \<in> set (compressedVideoFiles m) \<union> set (unableToCompressVideoFiles m) \<longrightarrow>
      count_list (trace (state_after
          (find_video_files_to_compress t c username password lr rr m)))
        (CompressVideo p tgt)
      = count_list (trace m) (CompressVideo p tgt))"
  by (simp add: find_image_files_to_compress_def find_video_files_to_compress_def Let_def
      image_lines_no_call video_lines_no_call state_after_def [of "Inr m"])

theorem C1_compression_idempotence_witness:
  "''C:/data/a.jpg'' \<in> set (compressedImageFiles
        ((example_manager [''C:/data/a.jpg'', ''C:/data/v.avi''])
           \<lparr>compressedImageFiles := [''C:/data/a.jpg''],
            unableToCompressVideoFiles := [''C:/data/v.avi'']\<rparr>))
   \<and> trace (find_image_files_to_compress
        (example_tools [''/Root/a.jpg'', ''/Root/v.avi''] image_transcoder_ok
           video_transcoder_fails False)
        example_config ''user'' ''secret'' ''C:/data'' ''/Root''
        ((example_manager [''C:/data/a.jpg'', ''C:/data/v.avi''])
           \<lparr>compressedImageFiles := [''C:/data/a.jpg''],
            unableToCompressVideoFiles := [''C:/data/v.avi'']\<rparr>)) = []
   \<and> count_list (trace (state_after (find_video_files_to_compress
        (example_tools [''/Root/a.jpg'', ''/Root/v.avi''] image_transcoder_ok
           video_transcoder_fails False)
        example_config ''user'' ''secret'' ''C:/data'' ''/Root''
        ((example_manager [''C:/data/a.jpg'', ''C:/data/v.avi''])
           \<lparr>compressedImageFiles := [''C:/data/a.jpg''],
            unableToCompressVideoFiles := [''C:/data/v.avi'']\<rparr>))))
        (CompressVideo ''C:/data/v.avi'' ''C:/data/v_NEW.mp4'') = 0"
proof -
  let ?t = "example_tools [''/Root/a.jpg'', ''/Root/v.avi''] image_transcoder_ok
              video_transcoder_fails False"
  let ?m = "(example_manager [''C:/data/a.jpg'', ''C:/data/v.avi''])
              \<lparr>compressedImageFiles := [''C:/data/a.jpg''],
               unableToCompressVideoFiles := [''C:/data/v.avi'']\<rparr>"
  have in_img: "''C:/data/a.jpg'' \<in> set (compressedImageFiles ?m)"
    by simp
  have in_vid: "''C:/data/v.avi'' \<in> set (unableToCompressVideoFiles ?m)"
    by simp
  have empty: "trace ?m = []"
    by (simp add: example_manager_def)
  have run: "trace (find_image_files_to_compress ?t example_config ''user'' ''secret''
               ''C:/data'' ''/Root'' ?m) = []"
    by code_simp
  from C1_compression_idempotence [of "''C:/data/a.jpg''" ?m ?t example_config
      "''user''" "''secret''" "''C:/data''" "''/Root''"]
  have img: "count_list (trace (find_image_files_to_compress ?t example_config
          ''user'' ''secret'' ''C:/data'' ''/Root'' ?m)) (CompressImage ''C:/data/a.jpg'') = 0"
    using in_img empty by simp
  from C1_compression_idempotence [of "''C:/data/v.avi''" ?m ?t example_config
      "''user''" "''secret''" "''C:/data''" "''/Root''" "''C:/data/v_NEW.mp4''"]
  have "count_list (trace (state_after (find_video_files_to_compress ?t example_config
          ''user'' ''secret'' ''C:/data'' ''/Root'' ?m)))
          (CompressVideo ''C:/data/v.avi'' ''C:/data/v_NEW.mp4'') = 0"
    using in_vid empty by simp
  with in_img img run show ?thesis by blast
qed

lemma video_lines_unable:
  "unableToCompressVideoFiles (state_after (video_lines t c lr rr lines m))
   = unableToCompressVideoFiles m"
proof (induction lines arbitrary: m)
  case Nil
  then show ?case by (simp add: state_after_def)
next
  case (Cons line lines)
  show ?case
  proof (cases "video_line t c lr rr line m")
    case (Inl raised)
    with video_line_unable [of t c lr rr line m] show ?thesis
      by (simp add: video_lines_Cons_state)
  next
    case (Inr m')
    with video_line_unable [of t c lr rr line m] Cons.IH [of m'] show ?thesis
      by (simp add: video_lines_Cons_state state_after_def)
  qed
qed

text \<open>
  C3. The success branch of the image loop, run on the scenario of the specification:
  the transcoder is called once and the backup is removed, but the local path is put
  into the attribute \<open>compressedFiles\<close>, the compressed-images set stays empty, and the
  dump writes that empty set to the persistence file.
\<close>

theorem C3_image_success_not_recorded:
  "trace pic_scenario
     = [CompressImage ''C:/data/pic.jpg'', DumpList [] ''data/compressed_images.npz'']
   \<and> path_exists (env pic_scenario) ''C:/data/pic.jpg.compressimages-backup'' = False
   \<and> compressedFiles pic_scenario = [''C:/data/pic.jpg'']
   \<and> compressedImageFiles pic_scenario = []
   \<and> load_file_as_list ''data/compressed_images.npz'' (env pic_scenario) = Inr []"
  by code_simp

text \<open>
  C8. The failure branches of the video loop, on \<open>clip.avi\<close>. When the transcoder fails
  and leaves the target file, the method returns, the target is removed and neither set
  changes. When the transcoder fails and writes nothing, the method returns after a log
  line: the unable-to-compress-videos set stays empty and nothing is dumped.
\<close>

theorem C8_video_failure_not_recorded:
  "\<not> isl clip_target_scenario
   \<and> trace (state_after clip_target_scenario)
       = [CompressVideo ''C:/data/clip.avi'' ''C:/data/clip_NEW.mp4'']
   \<and> path_exists (env (state_after clip_target_scenario)) ''C:/data/clip_NEW.mp4'' = False
   \<and> compressedVideoFiles (state_after clip_target_scenario) = []
   \<and> unableToCompressVideoFiles (state_after clip_target_scenario) = []
   \<and> \<not> isl clip_scenario
   \<and> trace (state_after clip_scenario)
       = [CompressVideo ''C:/data/clip.avi'' ''C:/data/clip_NEW.mp4'']
   \<and> path_exists (env (state_after clip_scenario)) ''C:/data/clip_NEW.mp4'' = False
   \<and> compressedVideoFiles (state_after clip_scenario) = []
   \<and> unableToCompressVideoFiles (state_after clip_scenario) = []"
  by code_simp

subsection \<open>Remote pruning pipeline\<close>

lemma prefix_py_in: "prefix a b \<Longrightarrow> py_in a b"
  by (cases b) simp_all

lemma py_in_sublist: "py_in a b \<longleftrightarrow> sublist a b"
  by (induction b) (simp_all add: sublist_Cons_right)

lemma higherDirRemoved_iff:
  "higherDirRemoved removed filePath \<longleftrightarrow> (\<exists>r\<in>set removed. py_in r filePath)"
  by (induction removed) simp_all

lemma delete_step_removed_mono:
  "set (removedRemoteFiles m)
   \<subseteq> set (removedRemoteFiles (state_after (delete_step t c username password filePath m)))"
  by (simp add: delete_step_def state_after_def Let_def subset_insertI split: sum.splits)

lemma delete_step_blocked:
  assumes "p \<in> set (removedRemoteFiles m) \<or> higherDirRemoved (removedRemoteFiles m) p"
  shows "delete_step t c username password p m = Inr m"
  using assms by (auto simp: delete_step_def)

lemma delete_step_keeps_blocked:
  assumes "p \<in> set (removedRemoteFiles m) \<or> higherDirRemoved (removedRemoteFiles m) p"
  shows "p \<in> set (removedRemoteFiles (state_after (delete_step t c username password q m)))
         \<or> higherDirRemoved
              (removedRemoteFiles (state_after (delete_step t c username password q m))) p"
  using assms delete_step_removed_mono [of m t c username password q]
  unfolding higherDirRemoved_iff by blast

lemma delete_step_other:
  assumes "q \<noteq> p"
  shows "count_list (trace (state_after (delete_step t c username password q m)))
             (RemoveRemoteFile u' pw' p)
           = count_list (trace m) (RemoveRemoteFile u' pw' p)"
    and "count_list (removedRemoteFiles (state_after (delete_step t c username password q m))) p
           = count_list (removedRemoteFiles m) p"
  using assms
  by (simp_all add: delete_step_def state_after_def Let_def split: sum.splits)

lemma delete_step_no_call:
  assumes "p \<in> set (removedRemoteFiles m) \<or> higherDirRemoved (removedRemoteFiles m) p"
  shows "count_list (trace (state_after (delete_step t c username password q m)))
             (RemoveRemoteFile u' pw' p)
           = count_list (trace m) (RemoveRemoteFile u' pw' p)
         \<and> count_list (removedRemoteFiles (state_after (delete_step t c username password q m))) p
           = count_list (removedRemoteFiles m) p"
proof (cases "q = p")
  case True
  with assms show ?thesis by (simp add: delete_step_blocked state_after_def)
next
  case False
  then show ?thesis by (simp add: delete_step_other)
qed

lemma delete_loop_Cons_state:
  "state_after (delete_loop t c username password (q # paths) m)
   = (case delete_step t c username password q m of
        Inl raised \<Rightarrow> state_after (delete_step t c username password q m)
      | Inr m' \<Rightarrow> state_after (delete_loop t c username password paths m'))"
  by (simp add: state_after_def split: sum.splits)

lemma delete_loop_no_call:
  assumes "p \<in> set (removedRemoteFiles m) \<or> higherDirRemoved (removedRemoteFiles m) p"
  shows "count_list (trace (state_after (delete_loop t c username password paths m)))
             (RemoveRemoteFile u' pw' p)
           = count_list (trace m) (RemoveRemoteFile u' pw' p)
         \<and> count_list (removedRemoteFiles
               (state_after (delete_loop t c username password paths m))) p
           = count_list (removedRemoteFiles m) p"
  using assms
proof (induction paths arbitrary: m)
  case Nil
  then show ?case by (simp add: state_after_def)
next
  case (Cons q paths)
  let ?r = "delete_step t c username password q m"
  note step = delete_step_no_call [OF Cons.prems, of t c username password q u' pw']
  have blocked: "p \<in> set (removedRemoteFiles (state_after ?r))
      \<or> higherDirRemoved (removedRemoteFiles (state_after ?r)) p"
    using Cons.prems by (rule delete_step_keeps_blocked)
  show ?case
  proof (cases ?r)
    case (Inl raised)
    then show ?thesis using step by (simp add: delete_loop_Cons_state)
  next
    case (Inr m')
    then have m': "state_after ?r = m'" by (simp add: state_after_def)
    have "count_list (trace (state_after (delete_loop t c username password paths m')))
             (RemoveRemoteFile u' pw' p)
           = count_list (trace m') (RemoveRemoteFile u' pw' p)
         \<and> count_list (removedRemoteFiles
               (state_after (delete_loop t c username password paths m'))) p
           = count_list (removedRemoteFiles m') p"
      using blocked unfolding m' by (rule Cons.IH)
    then show ?thesis using step Inr m' by (simp add: delete_loop_Cons_state)
  qed
qed

text \<open>
  C4. Prefix guard of the pruning loop: when an entry recorded in the
  removed-remote-files set is a prefix of a path, the loop over the paths found missing
  issues no delete call for that path and does not append it to the set: the number of
  delete calls for it in the trace and the number of its occurrences in the set are the
  same after the loop as before, for the loop on any list of paths and for the whole
  method, whether they return or end by an exception of the remote delete. (The source
  tests whether the entry occurs anywhere in the path, which a prefix does.)
\<close>

theorem C4_prefix_guard:
  assumes "r \<in> set (removedRemoteFiles m)" and "prefix r filePath"
  shows "count_list (trace (state_after
               (delete_loop t c username password dontExistLocally m)))
             (RemoveRemoteFile u' pw' filePath)
           = count_list (trace m) (RemoveRemoteFile u' pw' filePath)
         \<and> count_list (removedRemoteFiles (state_after
               (delete_loop t c username password dontExistLocally m))) filePath
           = count_list (removedRemoteFiles m) filePath
         \<and> count_list (trace (state_after
               (delete_remote_files_that_dont_exist_locally t c username password m)))
             (RemoveRemoteFile u' pw' filePath)
           = count_list (trace m) (RemoveRemoteFile u' pw' filePath)
         \<and> count_list (removedRemoteFiles (state_after
               (delete_remote_files_that_dont_exist_locally t c username password m)))
             filePath
           = count_list (removedRemoteFiles m) filePath"
proof -
  have "higherDirRemoved (removedRemoteFiles m) filePath"
    using assms prefix_py_in unfolding higherDirRemoved_iff by blast
  then have blocked: "filePath \<in> set (removedRemoteFiles m)
      \<or> higherDirRemoved (removedRemoteFiles m) filePath" ..
  show ?thesis
    using delete_loop_no_call [OF blocked]
    by (simp add: delete_remote_files_that_dont_exist_locally_def Let_def)
qed

theorem C4_prefix_guard_witness:
  "''C:/data/b'' \<in> set (removedRemoteFiles
        ((example_manager [])\<lparr>removedRemoteFiles := [''C:/data/b'']\<rparr>))
   \<and> prefix ''C:/data/b'' ''C:/data/b/c''
   \<and> count_list (trace (state_after (delete_loop
          (example_tools [] image_transcoder_fails video_transcoder_fails True)
          example_config ''user'' ''secret'' [''C:/data/b/c'']
          ((example_manager [])\<lparr>removedRemoteFiles := [''C:/data/b'']\<rparr>))))
        (RemoveRemoteFile ''user'' ''secret'' ''C:/data/b/c'') = 0
   \<and> count_list (removedRemoteFiles (state_after (delete_loop
          (example_tools [] image_transcoder_fails video_transcoder_fails True)
          example_config ''user'' ''secret'' [''C:/data/b/c'']
          ((example_manager [])\<lparr>removedRemoteFiles := [''C:/data/b'']\<rparr>))))
        ''C:/data/b/c'' = 0"
proof -
  let ?m = "(example_manager [])\<lparr>removedRemoteFiles := [''C:/data/b'']\<rparr>"
  have r: "''C:/data/b'' \<in> set (removedRemoteFiles ?m)" by simp
  have p: "prefix ''C:/data/b'' ''C:/data/b/c''" by simp
  have e: "trace ?m = []" by (simp add: example_manager_def)
  show ?thesis
    using C4_prefix_guard [OF r p,
        of "example_tools [] image_transcoder_fails video_transcoder_fails True"
        example_config "''user''" "''secret''" "[''C:/data/b/c'']" "''user''" "''secret''"]
      r p e
    by simp
qed

text \<open>
  C5. What the pruning method passes to the remote delete, on the pruning run of the
  examples: the account lists \<open>/Root/a.txt\<close>; the method computes the local path
  \<open>C:/data/a.txt\<close>, finds nothing there, and calls the delete with that local path. The
  method returns, and no delete call receives the remote path \<open>/Root/a.txt\<close>.
\<close>

theorem C5_delete_receives_local_path:
  "get_remote_files_that_dont_exist_locally
       (example_tools [''/Root/a.txt''] image_transcoder_fails video_transcoder_fails True)
       example_config ''user'' ''secret'' (example_manager []) = [''C:/data/a.txt'']
   \<and> \<not> isl prune_scenario
   \<and> trace (state_after prune_scenario)
       = [RemoveRemoteFile ''user'' ''secret'' ''C:/data/a.txt'',
          DumpList [''C:/data/a.txt''] ''data/removed_remote_files.npz'']
   \<and> RemoveRemoteFile ''user'' ''secret'' ''/Root/a.txt''
       \<notin> set (trace (state_after prune_scenario))"
  by code_simp

lemma dump_then_load:
  assumes "suffix ''.npz'' filePath"
    and "\<not> locked w filePath" and "files w filePath \<noteq> Some Dir"
    and "\<forall>p\<in>set x. CHR 0x00 \<notin> set p"
  shows "load_file_as_list filePath (dump_list_into_file x filePath w) = Inr x"
  using assms
  by (simp add: load_file_as_list_def dump_list_into_file_def savez_compressed_def
      npz_name_def np_load_def npz_attr_def tolist_def path_isfile_def np_array_id)

lemma prune_after_reload_no_call:
  assumes "load_file_as_list (removedRemoteFilePath c) (env m) = Inr items"
    and "p \<in> set items"
  shows "count_list (trace (state_after (prune_after_reload t c username password m)))
           (RemoveRemoteFile u' pw' p)
         = count_list (trace m) (RemoveRemoteFile u' pw' p)"
proof -
  let ?n = "m\<lparr>removedRemoteFiles := items\<rparr>"
  have "p \<in> set (removedRemoteFiles ?n) \<or> higherDirRemoved (removedRemoteFiles ?n) p"
    using assms(2) by simp
  from delete_loop_no_call [OF this] assms(1) show ?thesis
    by (simp add: prune_after_reload_def delete_remote_files_that_dont_exist_locally_def
        Let_def)
qed

text \<open>
  C10, as the code has it. For a path that passes both guards the loop body appends the
  path to the removed-remote-files set before it calls the remote delete, so the path is
  in that set whether the delete returns true, returns false or raises, and no later
  pruning loop on that set, on any list of paths, issues a delete call for it. Whenever
  the delete call returns, whatever it returns, the set with the path in it is dumped
  next. If that dump can write the store (the store path ends in \<open>.npz\<close> as the module
  constant does, and the paths hold no NUL character), the store then holds the set with
  the path, and the pruning of a later run, which reads the store first, issues no
  delete call for the path either.
\<close>

theorem C10_record_before_delete:
  assumes "filePath \<notin> set (removedRemoteFiles m)"
    and "\<not> higherDirRemoved (removedRemoteFiles m) filePath"
  shows "removedRemoteFiles (state_after (delete_step t c username password filePath m))
           = removedRemoteFiles m @ [filePath]
         \<and> count_list (trace (state_after (delete_loop t' c' u' pw' later
               (state_after (delete_step t c username password filePath m)))))
             (RemoveRemoteFile u'' pw'' filePath)
           = count_list (trace (state_after (delete_step t c username password filePath m)))
               (RemoveRemoteFile u'' pw'' filePath)
         \<and> (remove_remote_file t username password filePath = Inr deleted \<longrightarrow>
              delete_step t c username password filePath m
              = Inr (lib_dump_list_into_file (removedRemoteFiles m @ [filePath])
                       (removedRemoteFilePath c)
                       (m\<lparr>removedRemoteFiles := removedRemoteFiles m @ [filePath],
                          trace := trace m @ [RemoveRemoteFile username password filePath]\<rparr>)))
         \<and> (remove_remote_file t username password filePath = Inr deleted
              \<and> suffix ''.npz'' (removedRemoteFilePath c)
              \<and> \<not> locked (env m) (removedRemoteFilePath c)
              \<and> files (env m) (removedRemoteFilePath c) \<noteq> Some Dir
              \<and> (\<forall>p\<in>set (removedRemoteFiles m @ [filePath]). CHR 0x00 \<notin> set p) \<longrightarrow>
              load_file_as_list (removedRemoteFilePath c)
                (env (state_after (delete_step t c username password filePath m)))
              = Inr (removedRemoteFiles m @ [filePath])
              \<and> count_list (trace (state_after (prune_after_reload t' c u' pw'
                    (state_after (delete_step t c username password filePath m)))))
                  (RemoveRemoteFile u'' pw'' filePath)
                = count_list
                    (trace (state_after (delete_step t c username password filePath m)))
                    (RemoveRemoteFile u'' pw'' filePath))"
proof -
  let ?m' = "state_after (delete_step t c username password filePath m)"
  let ?xs = "removedRemoteFiles m @ [filePath]"
  let ?m2 = "m\<lparr>removedRemoteFiles := ?xs,
               trace := trace m @ [RemoveRemoteFile username password filePath]\<rparr>"
  have rec: "removedRemoteFiles ?m' = ?xs"
    using assms by (simp add: delete_step_def state_after_def Let_def split: sum.splits)
  have "filePath \<in> set (removedRemoteFiles ?m')
        \<or> higherDirRemoved (removedRemoteFiles ?m') filePath"
    using rec by simp
  from delete_loop_no_call [OF this, of t' c' u' pw' later u'' pw'']
  have same_run: "count_list (trace (state_after (delete_loop t' c' u' pw' later ?m')))
             (RemoveRemoteFile u'' pw'' filePath)
           = count_list (trace ?m') (RemoveRemoteFile u'' pw'' filePath)"
    by simp
  have returns: "delete_step t c username password filePath m
      = Inr (lib_dump_list_into_file ?xs (removedRemoteFilePath c) ?m2)"
    if "remove_remote_file t username password filePath = Inr deleted"
    using assms that by (simp add: delete_step_def Let_def)
  have stored: "load_file_as_list (removedRemoteFilePath c) (env ?m') = Inr ?xs
      \<and> count_list (trace (state_after (prune_after_reload t' c u' pw' ?m')))
            (RemoveRemoteFile u'' pw'' filePath)
         = count_list (trace ?m') (RemoveRemoteFile u'' pw'' filePath)"
    if ret: "remove_remote_file t username password filePath = Inr deleted"
      and sfx: "suffix ''.npz'' (removedRemoteFilePath c)"
      and unlocked: "\<not> locked (env m) (removedRemoteFilePath c)"
      and nodir: "files (env m) (removedRemoteFilePath c) \<noteq> Some Dir"
      and nul: "\<forall>p\<in>set ?xs. CHR 0x00 \<notin> set p"
  proof -
    have "env ?m' = dump_list_into_file ?xs (removedRemoteFilePath c) (env m)"
      using returns [OF ret] by (simp add: state_after_def)
    then have load: "load_file_as_list (removedRemoteFilePath c) (env ?m') = Inr ?xs"
      using dump_then_load [OF sfx unlocked nodir nul] by simp
    have "filePath \<in> set ?xs" by simp
    from prune_after_reload_no_call [OF load this, of t' u' pw' u'' pw''] load
    show ?thesis by simp
  qed
  from rec same_run returns stored show ?thesis by blast
qed

theorem C10_record_before_delete_witness:
  "''C:/data/a.txt'' \<notin> set (removedRemoteFiles (example_manager []))
   \<and> \<not> higherDirRemoved (removedRemoteFiles (example_manager [])) ''C:/data/a.txt''
   \<and> remove_remote_file
        (example_tools [''/Root/a.txt''] image_transcoder_fails video_transcoder_fails False)
        ''user'' ''secret'' ''C:/data/a.txt'' = Inr False
   \<and> removedRemoteFiles (state_after (delete_step
        (example_tools [''/Root/a.txt''] image_transcoder_fails video_transcoder_fails False)
        example_config ''user'' ''secret'' ''C:/data/a.txt'' (example_manager [])))
       = [''C:/data/a.txt'']
   \<and> load_file_as_list ''data/removed_remote_files.npz'' (env (state_after (delete_step
        (example_tools [''/Root/a.txt''] image_transcoder_fails video_transcoder_fails False)
        example_config ''user'' ''secret'' ''C:/data/a.txt'' (example_manager []))))
       = Inr [''C:/data/a.txt'']
   \<and> count_list (trace (state_after failed_delete_prune))
        (RemoveRemoteFile ''user'' ''secret'' ''C:/data/a.txt'') = 1
   \<and> count_list (trace (state_after failed_delete_prune_again))
        (RemoveRemoteFile ''user'' ''secret'' ''C:/data/a.txt'') = 1"
proof -
  let ?t = "example_tools [''/Root/a.txt''] image_transcoder_fails video_transcoder_fails
              False"
  have g1: "''C:/data/a.txt'' \<notin> set (removedRemoteFiles (example_manager []))"
    by (simp add: example_manager_def)
  have g2: "\<not> higherDirRemoved (removedRemoteFiles (example_manager [])) ''C:/data/a.txt''"
    by (simp add: example_manager_def)
  have ret: "remove_remote_file ?t ''user'' ''secret'' ''C:/data/a.txt'' = Inr False"
    by (simp add: example_tools_def)
  have store: "removedRemoteFilePath example_config = ''data/removed_remote_files.npz''"
    "suffix ''.npz'' (removedRemoteFilePath example_config)"
    "\<not> locked (env (example_manager [])) (removedRemoteFilePath example_config)"
    "files (env (example_manager [])) (removedRemoteFilePath example_config) \<noteq> Some Dir"
    "\<forall>p\<in>set (removedRemoteFiles (example_manager []) @ [''C:/data/a.txt'']).
        CHR 0x00 \<notin> set p"
    "removedRemoteFiles (example_manager []) = []"
    by (simp_all add: example_config_def example_manager_def example_world_def
        suffix_to_prefix)
  have runs: "count_list (trace (state_after failed_delete_prune))
        (RemoveRemoteFile ''user'' ''secret'' ''C:/data/a.txt'') = 1
      \<and> count_list (trace (state_after failed_delete_prune_again))
        (RemoveRemoteFile ''user'' ''secret'' ''C:/data/a.txt'') = 1"
    by code_simp
  let ?m' = "state_after (delete_step ?t example_config ''user'' ''secret''
               ''C:/data/a.txt'' (example_manager []))"
  have hyp: "remove_remote_file ?t ''user'' ''secret'' ''C:/data/a.txt'' = Inr False
      \<and> suffix ''.npz'' (removedRemoteFilePath example_config)
      \<and> \<not> locked (env (example_manager [])) (removedRemoteFilePath example_config)
      \<and> files (env (example_manager [])) (removedRemoteFilePath example_config) \<noteq> Some Dir
      \<and> (\<forall>p\<in>set (removedRemoteFiles (example_manager []) @ [''C:/data/a.txt'']).
            CHR 0x00 \<notin> set p)"
    using ret store(2-5) by blast
  from C10_record_before_delete [OF g1 g2, of ?t example_config "''user''" "''secret''"
      ?t example_config "''user''" "''secret''" "[]" "''user''" "''secret''" False] hyp
  have "removedRemoteFiles ?m' = removedRemoteFiles (example_manager []) @ [''C:/data/a.txt'']
        \<and> load_file_as_list (removedRemoteFilePath example_config) (env ?m')
            = Inr (removedRemoteFiles (example_manager []) @ [''C:/data/a.txt''])"
    by blast
  then have "removedRemoteFiles ?m' = [''C:/data/a.txt'']
        \<and> load_file_as_list ''data/removed_remote_files.npz'' (env ?m')
            = Inr [''C:/data/a.txt'']"
    unfolding store(1) store(6) by simp
  with g1 g2 ret runs show ?thesis by blast
qed

text \<open>
  C10 as it is stated fails on the code in two ways. On a machine where the store cannot
  be written, the dump after a failed delete fails silently: the path is in the set in
  memory, the store holds nothing, and the pruning of a later run, which starts from the
  store, calls the delete for the same path a second time. And when the remote delete
  raises, the exception leaves the method at once: the path is in the set in memory and
  no dump is made.
\<close>

theorem C10_permanently_recorded_counterexample:
  "\<not> isl unwritable_prune
   \<and> removedRemoteFiles (state_after unwritable_prune) = [''C:/data/a.txt'']
   \<and> trace (state_after unwritable_prune)
       = [RemoveRemoteFile ''user'' ''secret'' ''C:/data/a.txt'',
          DumpList [''C:/data/a.txt''] ''data/removed_remote_files.npz'']
   \<and> load_file_as_list ''data/removed_remote_files.npz'' (env (state_after unwritable_prune))
       = Inr []
   \<and> count_list (trace (state_after unwritable_prune_again))
        (RemoveRemoteFile ''user'' ''secret'' ''C:/data/a.txt'') = 2
   \<and> isl raising_delete_prune
   \<and> removedRemoteFiles (state_after raising_delete_prune) = [''C:/data/a.txt'']
   \<and> trace (state_after raising_delete_prune)
       = [RemoveRemoteFile ''user'' ''secret'' ''C:/data/a.txt'']"
  by code_simp

subsection \<open>Waiting for the workers\<close>

lemma scan_threads_keeps_alive:
  "isAlive x \<Longrightarrow> x \<in> set ts \<Longrightarrow> x \<in> set (fst (scan_threads isAlive i ts found))"
proof (induction isAlive i ts found rule: scan_threads.induct)
  case (1 isAlive i ts found)
  show ?case
  proof (cases "i < length ts")
    case False
    with "1.prems" show ?thesis by (simp add: scan_threads.simps [of isAlive i ts found])
  next
    case True
    note in_range = True
    show ?thesis
    proof (cases "isAlive (ts ! i)")
      case False
      then have "x \<noteq> ts ! i" using "1.prems"(1) by auto
      then have "x \<in> set (remove1 (ts ! i) ts)" using "1.prems"(2) by simp
      with "1.IH"(1) [OF in_range refl _ "1.prems"(1)] False in_range show ?thesis
        by (simp add: scan_threads.simps [of isAlive i ts found])
    next
      case True
      note alive = True
      show ?thesis
      proof (cases "py_in ''megaFile'' (name (ts ! i))")
        case True
        with "1.IH"(2) [OF in_range refl _ _ "1.prems"] alive in_range show ?thesis
          by (simp add: scan_threads.simps [of isAlive i ts found])
      next
        case False
        with "1.IH"(3) [OF in_range refl _ _ "1.prems"] alive in_range show ?thesis
          by (simp add: scan_threads.simps [of isAlive i ts found])
      qed
    qed
  qed
qed

lemma scan_threads_found:
  "snd (scan_threads isAlive i ts found) \<Longrightarrow> found \<or> (\<exists>x\<in>set ts. isAlive x)"
proof (induction isAlive i ts found rule: scan_threads.induct)
  case (1 isAlive i ts found)
  show ?case
  proof (cases "i < length ts")
    case False
    with "1.prems" show ?thesis by (simp add: scan_threads.simps [of isAlive i ts found])
  next
    case True
    note in_range = True
    show ?thesis
    proof (cases "isAlive (ts ! i)")
      case False
      with "1.prems" in_range
      have "snd (scan_threads isAlive (Suc i) (remove1 (ts ! i) ts) found)"
        by (simp add: scan_threads.simps [of isAlive i ts found])
      from "1.IH"(1) [OF in_range refl _ this] False
      have "found \<or> (\<exists>x\<in>set (remove1 (ts ! i) ts). isAlive x)" by simp
      then show ?thesis using set_remove1_subset [of "ts ! i" ts] by blast
    next
      case True
      with in_range show ?thesis using nth_mem by blast
    qed
  qed
qed

lemma scan_threads_found_nonempty:
  assumes "scan_threads isAlive 0 ts False = (ts', True)"
  shows "ts' \<noteq> []"
proof -
  from assms have "snd (scan_threads isAlive 0 ts False)" by simp
  then obtain x where "x \<in> set ts" "isAlive x"
    using scan_threads_found by blast
  then have "x \<in> set (fst (scan_threads isAlive 0 ts False))"
    using scan_threads_keeps_alive by blast
  with assms show ?thesis by auto
qed

lemma wait_loop_exports_inv:
  assumes "exports s = (if megaFileFinished s then 1 else 0)"
  shows "exports (snd (wait_loop timeout polls s))
         = (if megaFileFinished (snd (wait_loop timeout polls s)) then 1 else 0)"
  using assms
proof (induction polls arbitrary: s)
  case Nil
  then show ?case by simp
next
  case (Cons poll polls)
  obtain elapsed isAlive where poll: "poll = (elapsed, isAlive)" by (cases poll)
  obtain ts found where scan: "scan_threads isAlive 0 (threads s) False = (ts, found)"
    by (cases "scan_threads isAlive 0 (threads s) False")
  let ?s1 = "s\<lparr>threads := ts\<rparr>"
  let ?s2 = "if \<not> found \<and> \<not> megaFileFinished ?s1
             then ?s1\<lparr>exports := exports ?s1 + 1, megaFileFinished := True\<rparr> else ?s1"
  have inv2: "exports ?s2 = (if megaFileFinished ?s2 then 1 else 0)"
    using Cons.prems by simp
  show ?case
  proof (cases "length (threads s) > 0 \<and> \<not> elapsed > timeout")
    case True
    then have "wait_loop timeout (poll # polls) s = wait_loop timeout polls ?s2"
      using poll scan by (simp add: Let_def)
    with Cons.IH [OF inv2] show ?thesis by simp
  next
    case False
    then show ?thesis using poll Cons.prems by auto
  qed
qed

lemma wait_loop_all_finished:
  assumes "exports s = (if megaFileFinished s then 1 else 0)"
    and "threads s \<noteq> [] \<or> megaFileFinished s"
    and "fst (wait_loop timeout polls s) = AllFinished"
  shows "exports (snd (wait_loop timeout polls s)) = 1"
  using assms
proof (induction polls arbitrary: s)
  case Nil
  then show ?case by (auto split: if_splits)
next
  case (Cons poll polls)
  obtain elapsed isAlive where poll: "poll = (elapsed, isAlive)" by (cases poll)
  obtain ts found where scan: "scan_threads isAlive 0 (threads s) False = (ts, found)"
    by (cases "scan_threads isAlive 0 (threads s) False")
  let ?s1 = "s\<lparr>threads := ts\<rparr>"
  let ?s2 = "if \<not> found \<and> \<not> megaFileFinished ?s1
             then ?s1\<lparr>exports := exports ?s1 + 1, megaFileFinished := True\<rparr> else ?s1"
  show ?case
  proof (cases "length (threads s) > 0")
    case False
    with Cons.prems poll show ?thesis by auto
  next
    case True
    note nonempty = True
    show ?thesis
    proof (cases "elapsed > timeout")
      case True
      with nonempty poll Cons.prems(3) show ?thesis by simp
    next
      case False
      with nonempty have step:
        "wait_loop timeout (poll # polls) s = wait_loop timeout polls ?s2"
        using poll scan by (simp add: Let_def)
      have inv2: "exports ?s2 = (if megaFileFinished ?s2 then 1 else 0)"
        using Cons.prems(1) by simp
      have live2: "threads ?s2 \<noteq> [] \<or> megaFileFinished ?s2"
      proof (cases found)
        case True
        with scan have "scan_threads isAlive 0 (threads s) False = (ts, True)" by simp
        then have "ts \<noteq> []" by (rule scan_threads_found_nonempty)
        then show ?thesis by simp
      next
        case False
        then show ?thesis by simp
      qed
      have "fst (wait_loop timeout polls ?s2) = AllFinished"
        using Cons.prems(3) step by simp
      from Cons.IH [OF inv2 live2 this] step show ?thesis by simp
    qed
  qed
qed

text \<open>
  C2, as the code has it. During one wait the export of the account details is called
  at most once, whatever the number of workers and whatever they do; and when the wait
  starts with at least one worker and ends because the registry has become empty (not by
  the timeout), the export has been called exactly once.
\<close>

theorem C2_export_at_most_once:
  "exports (snd (wait_for_threads_to_finish timeout polls ts)) \<le> 1
   \<and> (ts \<noteq> [] \<and> fst (wait_for_threads_to_finish timeout polls ts) = AllFinished
        \<longrightarrow> exports (snd (wait_for_threads_to_finish timeout polls ts)) = 1)"
proof -
  let ?s = "\<lparr>threads = ts, megaFileFinished = False, exports = 0\<rparr>"
  have inv: "exports ?s = (if megaFileFinished ?s then 1 else 0)" by simp
  have "exports (snd (wait_loop timeout polls ?s))
        = (if megaFileFinished (snd (wait_loop timeout polls ?s)) then 1 else 0)"
    using inv by (rule wait_loop_exports_inv)
  then have le: "exports (snd (wait_loop timeout polls ?s)) \<le> 1" by simp
  have "exports (snd (wait_loop timeout polls ?s)) = 1"
    if "ts \<noteq> []" and "fst (wait_loop timeout polls ?s) = AllFinished"
    using wait_loop_all_finished [OF inv _ that(2)] that(1) by simp
  with le show ?thesis by (simp add: wait_for_threads_to_finish_def)
qed

theorem C2_export_at_most_once_witness:
  "[\<lparr>tid = 1, name = ''thread_megaFile_home''\<rparr>] \<noteq> []
   \<and> fst finished_wait = AllFinished
   \<and> exports (snd finished_wait) = 1"
proof -
  have f: "fst finished_wait = AllFinished" by code_simp
  show ?thesis
    using C2_export_at_most_once [of "99999 :: int" "[(0, alive_ids [1]), (5, alive_ids [])]"
        "[\<lparr>tid = 1, name = ''thread_megaFile_home''\<rparr>]"] f
    by (simp add: finished_wait_def)
qed

text \<open>
  C2 as the specification states it fails on the code in two ways. With one
  detail-gatherer that outlives the timeout the wait returns without any export. And
  when a finished thread stands in the registry just before the only detail-gatherer,
  removing the finished thread makes the iteration skip the detail-gatherer: the export
  is made in that pass although the detail-gatherer is alive and still registered.
\<close>

theorem C2_export_exactly_once_counterexample:
  "fst timed_out_wait = TimedOut
   \<and> exports (snd timed_out_wait) = 0
   \<and> exports (snd early_export_wait) = 1
   \<and> threads (snd early_export_wait) = [\<lparr>tid = 1, name = ''thread_megaFile_home''\<rparr>]
   \<and> alive_ids [1] \<lparr>tid = 1, name = ''thread_megaFile_home''\<rparr>
   \<and> py_in ''megaFile'' (name \<lparr>tid = 1, name = ''thread_megaFile_home''\<rparr>)"
  by code_simp

end
